theory Spec2Isabelle
  imports Main "HOL-Library.Word" "HOL-Library.AList"
begin

section \<open>The session manager of \<^verbatim>\<open>AuthProvider\<close>\<close>

text \<open>
  The development embeds the authentication provider of the repository (the file with
  \<^verbatim>\<open>AuthContext\<close>, \<^verbatim>\<open>useAuth\<close> and \<^verbatim>\<open>AuthProvider\<close>): the three React state cells
  \<^verbatim>\<open>user\<close>, \<^verbatim>\<open>isAuthenticated\<close>, \<^verbatim>\<open>isLoading\<close>, the two browser storages, and the
  operations \<^verbatim>\<open>initializeAuth\<close>, \<^verbatim>\<open>login\<close>, \<^verbatim>\<open>logout\<close>, \<^verbatim>\<open>updateUser\<close> and
  \<^verbatim>\<open>validateSession\<close>.

  Each operation is a function from the state before the call to the state after it
  (and the returned value, if any). The timer delays (\<^verbatim>\<open>setTimeout\<close>, the awaited promise
  in \<^verbatim>\<open>login\<close>) carry no data and are left out: what runs after a delay runs without
  interruption, so it is one step of the model. \<^verbatim>\<open>console.error\<close> is not modelled.
  Each operation reads the state cells as they are when it starts, that is, the
  component has rendered since the previous operation.
\<close>

subsection \<open>JavaScript strings and values\<close>

text \<open>
  A JavaScript string is a sequence of UTF-16 code units; \<^verbatim>\<open>.length\<close> counts them and a
  regular expression without the \<^verbatim>\<open>u\<close> flag matches them one by one.
\<close>

type_synonym jschar = "16 word"
type_synonym jsstring = "jschar list"

text \<open>String literals of the source, which are all ASCII.\<close>

definition js :: "string \<Rightarrow> jsstring" where
  "js s = map (\<lambda>c. of_nat (of_char c)) s"

text \<open>
  The values that can reach \<^verbatim>\<open>user\<close>: what \<^verbatim>\<open>JSON.parse\<close> returns, what \<^verbatim>\<open>login\<close>
  builds and what a caller hands to \<^verbatim>\<open>updateUser\<close>. An object is the list of its own
  properties in insertion order. \<open>JNum\<close> carries the numbers that are integers; the
  other doubles are not represented.
\<close>

datatype jsval =
    JUndefined
  | JNull
  | JBool bool
  | JNum int
  | JStr jsstring
  | JArr "jsval list"
  | JObj "(jsstring \<times> jsval) list"

text \<open>\<^verbatim>\<open>ToBoolean\<close>: what \<^verbatim>\<open>if (v)\<close> and \<^verbatim>\<open>v && ...\<close> test.\<close>

fun truthy :: "jsval \<Rightarrow> bool" where
  "truthy JUndefined = False"
| "truthy JNull = False"
| "truthy (JBool b) = b"
| "truthy (JNum n) = (n \<noteq> 0)"
| "truthy (JStr s) = (s \<noteq> [])"
| "truthy (JArr xs) = True"
| "truthy (JObj ps) = True"

text \<open>Decimal digits of a natural number, as \<^verbatim>\<open>String(n)\<close> writes an array index.\<close>

definition digit :: "nat \<Rightarrow> jschar" where
  "digit d = of_nat (48 + d)"

function decimal :: "nat \<Rightarrow> jsstring" where
  "decimal n = (if n < 10 then [digit n] else decimal (n div 10) @ [digit (n mod 10)])"
  by pat_completeness auto
termination
  by (relation "measure id") auto

declare decimal.simps [simp del]

text \<open>
  \<^verbatim>\<open>Date.now().toString()\<close>: \<^verbatim>\<open>Number.prototype.toString\<close> on an integer (below
  \<open>10\<^sup>2\<^sup>1\<close> in magnitude, where JavaScript still writes all digits).
\<close>

definition Number_toString :: "int \<Rightarrow> jsstring" where
  "Number_toString i =
     (if i < 0 then js ''-'' @ decimal (nat (- i)) else decimal (nat i))"

text \<open>
  The own enumerable properties that an object spread \<^verbatim>\<open>{...v}\<close> copies: those of an
  object, the indexed elements of an array, the indexed characters of a string, and
  nothing for \<^verbatim>\<open>null\<close>, \<^verbatim>\<open>undefined\<close>, booleans and numbers.
\<close>

fun indexed :: "nat \<Rightarrow> jsval list \<Rightarrow> (jsstring \<times> jsval) list" where
  "indexed i [] = []"
| "indexed i (x # xs) = (decimal i, x) # indexed (Suc i) xs"

fun own_props :: "jsval \<Rightarrow> (jsstring \<times> jsval) list" where
  "own_props (JObj ps) = ps"
| "own_props (JArr xs) = indexed 0 xs"
| "own_props (JStr s) = indexed 0 (map (\<lambda>c. JStr [c]) s)"
| "own_props v = []"

text \<open>
  \<^verbatim>\<open>{...a, ...b}\<close> defines the properties of \<open>a\<close>, then those of \<open>b\<close>, on a fresh object:
  a name already present keeps its place and takes the new value, a new name goes to
  the end. (JavaScript lists integer-like names first; the model keeps insertion
  order, which only matters to the text \<^verbatim>\<open>JSON.stringify\<close> writes.)
\<close>

definition define_props :: "(jsstring \<times> jsval) list \<Rightarrow> jsval \<Rightarrow> (jsstring \<times> jsval) list" where
  "define_props acc v = fold (\<lambda>(k, x). AList.update k x) (own_props v) acc"

definition spread2 :: "jsval \<Rightarrow> jsval \<Rightarrow> jsval" where
  "spread2 a b = JObj (define_props (define_props [] a) b)"

text \<open>
  Reading a property by name from a value that is not \<^verbatim>\<open>null\<close> or \<^verbatim>\<open>undefined\<close>. The
  source reads one name only, \<^verbatim>\<open>loginTime\<close>, which no string, array, number or boolean
  has; a missing property reads as \<^verbatim>\<open>undefined\<close>.
\<close>

fun get_prop :: "jsval \<Rightarrow> jsstring \<Rightarrow> jsval" where
  "get_prop (JObj ps) k = (case map_of ps k of None \<Rightarrow> JUndefined | Some x \<Rightarrow> x)"
| "get_prop v k = JUndefined"

subsection \<open>Regular expressions\<close>

text \<open>
  The fragment of regular expressions the source uses, over any alphabet. A character
  class is a predicate on code units.
\<close>

datatype 'a regex =
    Fail
  | Epsilon
  | Chr "'a \<Rightarrow> bool"
  | Alt "'a regex" "'a regex"
  | Cat "'a regex" "'a regex"
  | Rep "'a regex"

text \<open>The quantifier \<^verbatim>\<open>+\<close>.\<close>

definition Plus :: "'a regex \<Rightarrow> 'a regex" where
  "Plus r = Cat r (Rep r)"

fun nullable :: "'a regex \<Rightarrow> bool" where
  "nullable Fail = False"
| "nullable Epsilon = True"
| "nullable (Chr p) = False"
| "nullable (Alt r s) = (nullable r \<or> nullable s)"
| "nullable (Cat r s) = (nullable r \<and> nullable s)"
| "nullable (Rep r) = True"

fun deriv :: "'a \<Rightarrow> 'a regex \<Rightarrow> 'a regex" where
  "deriv c Fail = Fail"
| "deriv c Epsilon = Fail"
| "deriv c (Chr p) = (if p c then Epsilon else Fail)"
| "deriv c (Alt r s) = Alt (deriv c r) (deriv c s)"
| "deriv c (Cat r s) =
     (if nullable r then Alt (Cat (deriv c r) s) (deriv c s) else Cat (deriv c r) s)"
| "deriv c (Rep r) = Cat (deriv c r) (Rep r)"

text \<open>
  Whether the whole input matches: \<^verbatim>\<open>/^r$/.test(s)\<close>. Without the \<^verbatim>\<open>m\<close> flag \<^verbatim>\<open>^\<close> is the
  start and \<^verbatim>\<open>$\<close> the end of the input; without \<^verbatim>\<open>g\<close> or \<^verbatim>\<open>y\<close> the test keeps no
  position between calls.
\<close>

fun full_match :: "'a regex \<Rightarrow> 'a list \<Rightarrow> bool" where
  "full_match r [] = nullable r"
| "full_match r (c # cs) = full_match (deriv c r) cs"

text \<open>
  The class \<^verbatim>\<open>\s\<close>: the white space and line terminator code units of ECMAScript.
\<close>

definition is_space :: "jschar \<Rightarrow> bool" where
  "is_space c \<longleftrightarrow>
     c = 0x0009 \<or> c = 0x000A \<or> c = 0x000B \<or> c = 0x000C \<or> c = 0x000D \<or> c = 0x0020 \<or>
     c = 0x00A0 \<or> c = 0x1680 \<or> (0x2000 \<le> c \<and> c \<le> 0x200A) \<or> c = 0x2028 \<or> c = 0x2029 \<or>
     c = 0x202F \<or> c = 0x205F \<or> c = 0x3000 \<or> c = 0xFEFF"

definition at_sign :: jschar where
  "at_sign = 0x0040"

definition full_stop :: jschar where
  "full_stop = 0x002E"

text \<open>The class \<^verbatim>\<open>[^\s@]\<close>.\<close>

definition not_space_at :: "jschar \<Rightarrow> bool" where
  "not_space_at c \<longleftrightarrow> \<not> is_space c \<and> c \<noteq> at_sign"

text \<open>\<^verbatim>\<open>const emailRegex = /^[^\s@]+@[^\s@]+\.[^\s@]+$/\<close>\<close>

definition emailRegex :: "jschar regex" where
  "emailRegex =
     Cat (Plus (Chr not_space_at))
       (Cat (Chr (\<lambda>c. c = at_sign))
         (Cat (Plus (Chr not_space_at))
           (Cat (Chr (\<lambda>c. c = full_stop))
             (Plus (Chr not_space_at)))))"

definition emailRegex_test :: "jsstring \<Rightarrow> bool" where
  "emailRegex_test email = full_match emailRegex email"

subsection \<open>The host\<close>

text \<open>
  The source calls four functions of the JavaScript host that are not part of the
  repository. They are parameters of the model; every theorem below holds for any
  choice of them.
  \<^item> \<open>JSON_parse\<close>: \<^verbatim>\<open>JSON.parse(text)\<close>; \<open>None\<close> when it throws a \<^verbatim>\<open>SyntaxError\<close>.
  \<^item> \<open>JSON_stringify\<close>: \<^verbatim>\<open>JSON.stringify(value)\<close>.
  \<^item> \<open>Date_toISOString\<close>: \<^verbatim>\<open>new Date(t).toISOString()\<close> for a time value \<open>t\<close> in
    milliseconds since the epoch.
  \<^item> \<open>Date_getTime\<close>: the time value of \<^verbatim>\<open>new Date(v)\<close>, which is what the subtraction
    \<^verbatim>\<open>now - loginTime\<close> reads; \<open>None\<close> for an invalid date, whose time value is \<^verbatim>\<open>NaN\<close>.
\<close>

record host =
  JSON_parse :: "jsstring \<Rightarrow> jsval option"
  JSON_stringify :: "jsval \<Rightarrow> jsstring"
  Date_toISOString :: "int \<Rightarrow> jsstring"
  Date_getTime :: "jsval \<Rightarrow> int option"

subsection \<open>Web storage\<close>

text \<open>
  A \<^verbatim>\<open>Storage\<close> object maps keys to strings. \<^verbatim>\<open>getItem\<close> returns \<^verbatim>\<open>null\<close> (here \<open>None\<close>)
  for a missing key. Storage is assumed to be available and never full, so that no
  storage call throws.
\<close>

type_synonym storage = "jsstring \<rightharpoonup> jsstring"

definition getItem :: "storage \<Rightarrow> jsstring \<Rightarrow> jsstring option" where
  "getItem m k = m k"

definition setItem :: "storage \<Rightarrow> jsstring \<Rightarrow> jsstring \<Rightarrow> storage" where
  "setItem m k v = m(k \<mapsto> v)"

definition removeItem :: "storage \<Rightarrow> jsstring \<Rightarrow> storage" where
  "removeItem m k = m(k := None)"

text \<open>Truthiness of what \<^verbatim>\<open>getItem\<close> returns: a string that is not empty.\<close>

fun truthy_item :: "jsstring option \<Rightarrow> bool" where
  "truthy_item None = False"
| "truthy_item (Some s) = (s \<noteq> [])"

subsection \<open>State\<close>

text \<open>
  The three \<^verbatim>\<open>useState\<close> cells of \<^verbatim>\<open>AuthProvider\<close> and the two storages of the browser.
\<close>

record state =
  user :: jsval
  isAuthenticated :: bool
  isLoading :: bool
  localStorage :: storage
  sessionStorage :: storage

text \<open>
  The state when the provider mounts: \<^verbatim>\<open>useState(null)\<close>, \<^verbatim>\<open>useState(false)\<close>,
  \<^verbatim>\<open>useState(true)\<close>, over whatever the storages hold.
\<close>

definition mount :: "storage \<Rightarrow> storage \<Rightarrow> state" where
  "mount ls ss =
     \<lparr>user = JNull, isAuthenticated = False, isLoading = True,
      localStorage = ls, sessionStorage = ss\<rparr>"

datatype error = Error jsstring | SyntaxError

subsection \<open>Operations\<close>

text \<open>
  \<^verbatim>\<open>initializeAuth\<close>: the body of the \<^verbatim>\<open>try\<close> block. \<^verbatim>\<open>JSON.parse\<close> throws before either
  setter runs.
\<close>

definition initializeAuth_try :: "host \<Rightarrow> state \<Rightarrow> error + state" where
  "initializeAuth_try H st =
     (let storedUser = getItem (localStorage st) (js ''user'');
          storedAuth = getItem (localStorage st) (js ''isAuthenticated'')
      in if truthy_item storedUser \<and> storedAuth = Some (js ''true'') then
           (case storedUser of
              None \<Rightarrow> Inr st
            | Some text \<Rightarrow>
                (case JSON_parse H text of
                   None \<Rightarrow> Inl SyntaxError
                 | Some v \<Rightarrow> Inr (st\<lparr>user := v, isAuthenticated := True\<rparr>)))
         else Inr st)"

text \<open>The \<^verbatim>\<open>catch\<close> block clears the two durable keys; \<^verbatim>\<open>finally\<close> ends the loading phase.\<close>

definition initializeAuth :: "host \<Rightarrow> state \<Rightarrow> state" where
  "initializeAuth H st =
     (let st1 =
            (case initializeAuth_try H st of
               Inr st' \<Rightarrow> st'
             | Inl e \<Rightarrow>
                 st\<lparr>localStorage :=
                      removeItem (removeItem (localStorage st) (js ''user''))
                        (js ''isAuthenticated'')\<rparr>)
      in st1\<lparr>isLoading := False\<rparr>)"

text \<open>
  \<^verbatim>\<open>login\<close>: the body of the \<^verbatim>\<open>try\<close> block. The clock is read twice, by \<^verbatim>\<open>new Date()\<close>
  (\<open>t\<^sub>1\<close>) and by \<^verbatim>\<open>Date.now()\<close> (\<open>t\<^sub>2\<close>).
\<close>

definition login_try ::
  "host \<Rightarrow> int \<Rightarrow> int \<Rightarrow> jsstring \<Rightarrow> jsstring \<Rightarrow> bool \<Rightarrow> state \<Rightarrow> error + state" where
  "login_try H t1 t2 email password rememberMe st =
     (if \<not> emailRegex_test email then Inl (Error (js ''Invalid email format''))
      else if length password < 6 then
        Inl (Error (js ''Password must be at least 6 characters''))
      else
        (let userData =
               JObj [(js ''email'', JStr email),
                     (js ''rememberMe'', JBool rememberMe),
                     (js ''loginTime'', JStr (Date_toISOString H t1)),
                     (js ''id'', JStr (Number_toString t2))];
             st1 = st\<lparr>user := userData, isAuthenticated := True\<rparr>
         in if rememberMe then
              Inr (st1\<lparr>localStorage :=
                          setItem
                            (setItem (localStorage st1) (js ''user'') (JSON_stringify H userData))
                            (js ''isAuthenticated'') (js ''true'')\<rparr>)
            else
              Inr (st1\<lparr>sessionStorage :=
                          setItem
                            (setItem (sessionStorage st1) (js ''user'') (JSON_stringify H userData))
                            (js ''isAuthenticated'') (js ''true'')\<rparr>)))"

text \<open>The \<^verbatim>\<open>catch\<close> block turns any error into the result \<^verbatim>\<open>false\<close>.\<close>

definition login ::
  "host \<Rightarrow> int \<Rightarrow> int \<Rightarrow> jsstring \<Rightarrow> jsstring \<Rightarrow> bool \<Rightarrow> state \<Rightarrow> bool \<times> state" where
  "login H t1 t2 email password rememberMe st =
     (case login_try H t1 t2 email password rememberMe st of
        Inr st' \<Rightarrow> (True, st')
      | Inl e \<Rightarrow> (False, st))"

definition logout :: "state \<Rightarrow> state" where
  "logout st =
     st\<lparr>user := JNull, isAuthenticated := False,
        localStorage :=
          removeItem (removeItem (localStorage st) (js ''user'')) (js ''isAuthenticated''),
        sessionStorage :=
          removeItem (removeItem (sessionStorage st) (js ''user'')) (js ''isAuthenticated'')\<rparr>"

definition updateUser :: "host \<Rightarrow> jsval \<Rightarrow> state \<Rightarrow> state" where
  "updateUser H userData st =
     (let updatedUser = spread2 (user st) userData;
          st1 = st\<lparr>user := updatedUser\<rparr>;
          st2 =
            (if truthy_item (getItem (localStorage st1) (js ''user'')) then
               st1\<lparr>localStorage :=
                     setItem (localStorage st1) (js ''user'') (JSON_stringify H updatedUser)\<rparr>
             else st1)
      in if truthy_item (getItem (sessionStorage st2) (js ''user'')) then
           st2\<lparr>sessionStorage :=
                 setItem (sessionStorage st2) (js ''user'') (JSON_stringify H updatedUser)\<rparr>
         else st2)"

definition maxSessionTime :: int where
  "maxSessionTime = 24 * 60 * 60 * 1000"

text \<open>
  \<^verbatim>\<open>validateSession\<close>, with \<open>now\<close> the time value of \<^verbatim>\<open>new Date()\<close>. When \<^verbatim>\<open>loginTime\<close>
  is not a valid date the difference is \<^verbatim>\<open>NaN\<close>, and \<^verbatim>\<open>NaN > maxSessionTime\<close> is false.
\<close>

definition validateSession :: "host \<Rightarrow> int \<Rightarrow> state \<Rightarrow> bool \<times> state" where
  "validateSession H now st =
     (if truthy (user st) \<and> truthy (get_prop (user st) (js ''loginTime'')) then
        (case Date_getTime H (get_prop (user st) (js ''loginTime'')) of
           None \<Rightarrow> (True, st)
         | Some loginTime \<Rightarrow>
             (let timeDifference = now - loginTime
              in if timeDifference > maxSessionTime then (False, logout st) else (True, st)))
      else (True, st))"

subsection \<open>Sequences of operations\<close>

text \<open>
  The calls a consumer of the context (or a timer) can make, with the clock readings
  each one takes. \<open>Bootstrap\<close> is the run of \<^verbatim>\<open>initializeAuth\<close>.
\<close>

datatype op =
    Login int int jsstring jsstring bool
  | Logout
  | UpdateUser jsval
  | ValidateSession int
  | Bootstrap

fun step :: "host \<Rightarrow> state \<Rightarrow> op \<Rightarrow> state" where
  "step H st (Login t1 t2 email password rememberMe) =
     snd (login H t1 t2 email password rememberMe st)"
| "step H st Logout = logout st"
| "step H st (UpdateUser userData) = updateUser H userData st"
| "step H st (ValidateSession now) = snd (validateSession H now st)"
| "step H st Bootstrap = initializeAuth H st"

definition run :: "host \<Rightarrow> state \<Rightarrow> op list \<Rightarrow> state" where
  "run H st ops = foldl (step H) st ops"

subsection \<open>Properties named by the specification\<close>

text \<open>
  The email shape in the words of the specification: one or more characters that are
  neither white space nor \<^verbatim>\<open>@\<close>, an \<^verbatim>\<open>@\<close>, one or more such characters, a dot, one or more
  such characters.
\<close>

definition email_shape :: "jsstring \<Rightarrow> bool" where
  "email_shape email \<longleftrightarrow>
     (\<exists>local domain tld.
        email = local @ [at_sign] @ domain @ [full_stop] @ tld \<and>
        local \<noteq> [] \<and> domain \<noteq> [] \<and> tld \<noteq> [] \<and>
        (\<forall>c \<in> set (local @ domain @ tld). \<not> is_space c \<and> c \<noteq> at_sign))"

text \<open>\<^verbatim>\<open>user\<close> is \<^verbatim>\<open>null\<close> exactly when unauthenticated.\<close>

definition session_inv :: "state \<Rightarrow> bool" where
  "session_inv st \<longleftrightarrow> (user st = JNull \<longleftrightarrow> \<not> isAuthenticated st)"

text \<open>A storage tier holds a Session when it has a value under the key \<^verbatim>\<open>user\<close>.\<close>

definition holds_session :: "storage \<Rightarrow> bool" where
  "holds_session m \<longleftrightarrow> getItem m (js ''user'') \<noteq> None"

text \<open>A storage tier has neither of the two keys.\<close>

definition purged :: "storage \<Rightarrow> bool" where
  "purged m \<longleftrightarrow> getItem m (js ''user'') = None \<and> getItem m (js ''isAuthenticated'') = None"

text \<open>
  The Session lives in exactly one storage tier while authenticated, and in none
  otherwise.
\<close>

definition tier_inv :: "state \<Rightarrow> bool" where
  "tier_inv st \<longleftrightarrow>
     (if isAuthenticated st then
        holds_session (localStorage st) \<and> \<not> holds_session (sessionStorage st) \<or>
        \<not> holds_session (localStorage st) \<and> holds_session (sessionStorage st)
      else \<not> holds_session (localStorage st) \<and> \<not> holds_session (sessionStorage st))"

text \<open>
  Sequences in which \<^verbatim>\<open>login\<close> (and the bootstrap) is called only while unauthenticated.
\<close>

fun anonymous_only :: "op \<Rightarrow> bool" where
  "anonymous_only (Login t1 t2 email password rememberMe) = True"
| "anonymous_only Bootstrap = True"
| "anonymous_only other = False"

fun login_once :: "host \<Rightarrow> state \<Rightarrow> op list \<Rightarrow> bool" where
  "login_once H st [] = True"
| "login_once H st (x # xs) =
     ((anonymous_only x \<longrightarrow> \<not> isAuthenticated st) \<and> login_once H (step H st x) xs)"

text \<open>
  The calls under which the state invariant is kept: \<^verbatim>\<open>updateUser\<close> while authenticated,
  and any bootstrap but the one that reads a stored \<^verbatim>\<open>user\<close> text which parses to
  \<^verbatim>\<open>null\<close>.
\<close>

fun permitted :: "host \<Rightarrow> state \<Rightarrow> op \<Rightarrow> bool" where
  "permitted H st (UpdateUser userData) = isAuthenticated st"
| "permitted H st Bootstrap =
     (case getItem (localStorage st) (js ''user'') of
        None \<Rightarrow> True
      | Some stored \<Rightarrow>
          \<not> (stored \<noteq> [] \<and>
             getItem (localStorage st) (js ''isAuthenticated'') = Some (js ''true'') \<and>
             JSON_parse H stored = Some JNull))"
| "permitted H st other = True"

fun permitted_run :: "host \<Rightarrow> state \<Rightarrow> op list \<Rightarrow> bool" where
  "permitted_run H st [] = True"
| "permitted_run H st (x # xs) = (permitted H st x \<and> permitted_run H (step H st x) xs)"

subsection \<open>A host and states for examples\<close>

text \<open>
  The examples below run the operations on a small host. It gives what a browser
  gives on the inputs the examples hand it: the clock reads \<open>0\<close> at every login, the
  only texts parsed are malformed, and the strings written need no escapes.
\<close>

fun join_comma :: "jsstring list \<Rightarrow> jsstring" where
  "join_comma [] = []"
| "join_comma [t] = t"
| "join_comma (t # u # ts) = t @ js '','' @ join_comma (u # ts)"

text \<open>
  \<^verbatim>\<open>JSON.stringify\<close> gives \<^verbatim>\<open>undefined\<close> (here \<open>None\<close>) for \<^verbatim>\<open>undefined\<close>, leaves out the
  properties whose value is \<^verbatim>\<open>undefined\<close> and writes \<^verbatim>\<open>null\<close> for such an array element.
\<close>

primrec demo_json :: "jsval \<Rightarrow> jsstring option" where
  "demo_json JUndefined = None"
| "demo_json JNull = Some (js ''null'')"
| "demo_json (JBool b) = Some (if b then js ''true'' else js ''false'')"
| "demo_json (JNum n) = Some (Number_toString n)"
| "demo_json (JStr s) = Some (js ''\"'' @ s @ js ''\"'')"
| "demo_json (JArr xs) =
     Some (js ''['' @
           join_comma (map (\<lambda>t. case t of None \<Rightarrow> js ''null'' | Some u \<Rightarrow> u)
                         (map demo_json xs)) @
           js '']'')"
| "demo_json (JObj ps) =
     Some (js ''{'' @
           join_comma
             (concat (map (\<lambda>(k, t). case t of
                                       None \<Rightarrow> []
                                     | Some u \<Rightarrow> [js ''\"'' @ k @ js ''\":'' @ u])
                        (map (map_prod id demo_json) ps))) @
           js ''}'')"

text \<open>\<^verbatim>\<open>setItem\<close> stores \<^verbatim>\<open>undefined\<close> as the text \<^verbatim>\<open>undefined\<close>.\<close>

definition demo_stringify :: "jsval \<Rightarrow> jsstring" where
  "demo_stringify v = (case demo_json v of None \<Rightarrow> js ''undefined'' | Some t \<Rightarrow> t)"

definition demo_host :: host where
  "demo_host =
     \<lparr>JSON_parse = (\<lambda>stored. None),
      JSON_stringify = demo_stringify,
      Date_toISOString = (\<lambda>t. js ''1970-01-01T00:00:00.000Z''),
      Date_getTime =
        (\<lambda>v. if v = JStr (js ''1970-01-01T00:00:00.000Z'') then Some 0 else None)\<rparr>"

definition no_items :: storage where
  "no_items = Map.empty"

text \<open>
  The state after \<^verbatim>\<open>login("a@b.co", "abcdef", false)\<close>, and after the same login with
  \<^verbatim>\<open>rememberMe\<close>, both on a fresh provider over empty storages.
\<close>

definition session0 :: state where
  "session0 =
     snd (login demo_host 0 0 (js ''a@b.co'') (js ''abcdef'') False (mount no_items no_items))"

definition remembered0 :: state where
  "remembered0 =
     snd (login demo_host 0 0 (js ''a@b.co'') (js ''abcdef'') True (mount no_items no_items))"

text \<open>The argument of \<^verbatim>\<open>updateUser({nickname: "x"})\<close>.\<close>

definition nickname_x :: jsval where
  "nickname_x = JObj [(js ''nickname'', JStr (js ''x''))]"

text \<open>
  Durable storages with the authenticated flag and a \<^verbatim>\<open>user\<close> text that is not JSON:
  \<^verbatim>\<open>{bad\<close>, and the empty text.
\<close>

definition corrupt_store :: storage where
  "corrupt_store =
     setItem (setItem no_items (js ''user'') (js ''{bad'')) (js ''isAuthenticated'') (js ''true'')"

definition empty_text_store :: storage where
  "empty_text_store =
     setItem (setItem no_items (js ''user'') []) (js ''isAuthenticated'') (js ''true'')"

text \<open>
  The logged-in state \<open>session0\<close> with a \<^verbatim>\<open>user\<close> item seeded into the durable storage
  as well: the text \<^verbatim>\<open>{}\<close>, and the empty text.
\<close>

definition both_seeded :: state where
  "both_seeded = session0\<lparr>localStorage := setItem no_items (js ''user'') (js ''{}'')\<rparr>"

definition empty_seeded :: state where
  "empty_seeded = session0\<lparr>localStorage := setItem no_items (js ''user'') []\<rparr>"

text \<open>
  A sequence of calls: bootstrap, a login that fails, one that succeeds, an update of
  the user, a session check after one hour and one after 25 hours, and a logout.
\<close>

definition tour :: "op list" where
  "tour =
     [Bootstrap,
      Login 0 0 (js ''ab@cd'') (js ''abcdef'') False,
      Login 0 0 (js ''a@b.co'') (js ''abcdef'') False,
      UpdateUser nickname_x,
      ValidateSession (60 * 60 * 1000),
      ValidateSession (25 * 60 * 60 * 1000),
      Logout]"

subsection \<open>The language of a regular expression\<close>

text \<open>
  The set of inputs a regular expression denotes, against which the matcher is
  proved right.
\<close>

inductive_set rep_lang :: "'a list set \<Rightarrow> 'a list set" for A :: "'a list set" where
  nil: "[] \<in> rep_lang A"
| app: "u \<in> A \<Longrightarrow> v \<in> rep_lang A \<Longrightarrow> u @ v \<in> rep_lang A"

fun lang :: "'a regex \<Rightarrow> 'a list set" where
  "lang Fail = {}"
| "lang Epsilon = {[]}"
| "lang (Chr p) = {[c] | c. p c}"
| "lang (Alt r s) = lang r \<union> lang s"
| "lang (Cat r s) = {u @ v | u v. u \<in> lang r \<and> v \<in> lang s}"
| "lang (Rep r) = rep_lang (lang r)"

section \<open>Source literals\<close>

lemma jschar_inj: "(of_nat (of_char c) :: jschar) = of_nat (of_char d) \<longleftrightarrow> c = d"
proof
  assume h: "(of_nat (of_char c) :: jschar) = of_nat (of_char d)"
  have small: "(of_char x :: nat) < 2 ^ 16" for x
  proof -
    have "(of_char x :: nat) < 256" by (cases x) simp
    also have "\<dots> < 2 ^ 16" by simp
    finally show ?thesis .
  qed
  from h have "unat (of_nat (of_char c) :: jschar) = unat (of_nat (of_char d) :: jschar)"
    by simp
  then have "(of_char c :: nat) = of_char d"
    using small [of c] small [of d] by (simp add: unat_of_nat take_bit_nat_eq_self)
  then show "c = d" by simp
qed simp

lemma js_eq_iff [simp]: "js a = js b \<longleftrightarrow> a = b"
proof (induction a arbitrary: b)
  case Nil
  then show ?case by (auto simp: js_def)
next
  case (Cons x xs)
  then show ?case by (cases b) (auto simp: js_def jschar_inj)
qed

lemma length_js [simp]: "length (js s) = length s"
  by (simp add: js_def)

lemma js_Nil_iff [simp]: "js s = [] \<longleftrightarrow> s = []"
  by (simp add: js_def)

lemmas storage_defs = getItem_def setItem_def removeItem_def

section \<open>The matcher decides the language\<close>

lemma nullable_lang: "nullable r \<longleftrightarrow> [] \<in> lang r"
  by (induction r) (auto intro: rep_lang.nil)

lemma rep_lang_cons:
  "c # w \<in> rep_lang A \<longleftrightarrow> (\<exists>u v. w = u @ v \<and> c # u \<in> A \<and> v \<in> rep_lang A)"
proof
  assume "c # w \<in> rep_lang A"
  then show "\<exists>u v. w = u @ v \<and> c # u \<in> A \<and> v \<in> rep_lang A"
  proof (induction "c # w" rule: rep_lang.induct)
    case (app u v)
    then show ?case
      by (cases u) auto
  qed
next
  assume "\<exists>u v. w = u @ v \<and> c # u \<in> A \<and> v \<in> rep_lang A"
  then obtain u v where "w = u @ v" "c # u \<in> A" "v \<in> rep_lang A" by blast
  then show "c # w \<in> rep_lang A"
    using rep_lang.app [of "c # u" A v] by simp
qed

lemma deriv_lang: "w \<in> lang (deriv c r) \<longleftrightarrow> c # w \<in> lang r"
proof (induction r arbitrary: w)
  case (Cat r s)
  show ?case
  proof (cases "nullable r")
    case True
    then have e: "[] \<in> lang r" by (simp add: nullable_lang)
    show ?thesis
      apply (simp add: True Cat)
      apply (auto simp: Cons_eq_append_conv e)
      apply (metis append_Nil e)
      done
  next
    case False
    then have e: "[] \<notin> lang r" by (simp add: nullable_lang)
    show ?thesis
      apply (simp add: False Cat)
      apply (auto simp: Cons_eq_append_conv e)
      done
  qed
next
  case (Rep r)
  show ?case by (simp add: rep_lang_cons Rep)
qed auto

lemma full_match_lang: "full_match r w \<longleftrightarrow> w \<in> lang r"
  by (induction w arbitrary: r) (simp_all add: nullable_lang deriv_lang)

lemma rep_class_lang: "rep_lang {[c] | c. p c} = {w. \<forall>c \<in> set w. p c}"
proof (intro set_eqI iffI)
  fix w assume "w \<in> rep_lang {[c] | c. p c}"
  then show "w \<in> {w. \<forall>c \<in> set w. p c}"
    by (induction rule: rep_lang.induct) auto
next
  fix w :: "'a list" assume "w \<in> {w. \<forall>c \<in> set w. p c}"
  then have "\<forall>c \<in> set w. p c" by simp
  then show "w \<in> rep_lang {[c] | c. p c}"
  proof (induction w)
    case Nil
    show ?case by (rule rep_lang.nil)
  next
    case (Cons x xs)
    then have "[x] \<in> {[c] | c. p c}" and "xs \<in> rep_lang {[c] | c. p c}" by auto
    then have "[x] @ xs \<in> rep_lang {[c] | c. p c}" by (rule rep_lang.app)
    then show ?case by simp
  qed
qed

lemma plus_class_lang: "lang (Plus (Chr p)) = {w. w \<noteq> [] \<and> (\<forall>c \<in> set w. p c)}"
proof (rule set_eqI)
  fix w :: "'a list"
  show "w \<in> lang (Plus (Chr p)) \<longleftrightarrow> w \<in> {w. w \<noteq> [] \<and> (\<forall>c \<in> set w. p c)}"
  proof (cases w)
    case Nil
    then show ?thesis by (simp add: Plus_def)
  next
    case (Cons a as)
    have "(\<exists>u v. a # as = u @ v \<and> (\<exists>c. u = [c] \<and> p c) \<and> (\<forall>x \<in> set v. p x)) \<longleftrightarrow>
          p a \<and> (\<forall>x \<in> set as. p x)"
    proof
      assume "p a \<and> (\<forall>x \<in> set as. p x)"
      then have "a # as = [a] @ as \<and> (\<exists>c. [a] = [c] \<and> p c) \<and> (\<forall>x \<in> set as. p x)"
        by simp
      then show "\<exists>u v. a # as = u @ v \<and> (\<exists>c. u = [c] \<and> p c) \<and> (\<forall>x \<in> set v. p x)"
        by blast
    qed auto
    then show ?thesis
      by (simp add: Cons Plus_def rep_class_lang)
  qed
qed

text \<open>
  The regular expression of the source accepts exactly the emails of the shape the
  specification describes.
\<close>

lemma emailRegex_test_shape: "emailRegex_test email \<longleftrightarrow> email_shape email"
proof -
  have "emailRegex_test email \<longleftrightarrow> email \<in> lang emailRegex"
    by (simp add: emailRegex_test_def full_match_lang)
  also have "\<dots> \<longleftrightarrow>
    (\<exists>u v w. email = u @ [at_sign] @ v @ [full_stop] @ w \<and>
       (u \<noteq> [] \<and> (\<forall>c \<in> set u. not_space_at c)) \<and>
       (v \<noteq> [] \<and> (\<forall>c \<in> set v. not_space_at c)) \<and>
       (w \<noteq> [] \<and> (\<forall>c \<in> set w. not_space_at c)))"
    unfolding emailRegex_def lang.simps(5) plus_class_lang
    by simp blast
  also have "\<dots> \<longleftrightarrow> email_shape email"
    unfolding email_shape_def not_space_at_def
    by (simp add: ball_Un) blast
  finally show ?thesis .
qed

lemmas regex_eval =
  emailRegex_test_def emailRegex_def Plus_def not_space_at_def is_space_def
  at_sign_def full_stop_def js_def

lemma example_email: "emailRegex_test (js ''a@b.co'')"
  by (simp add: regex_eval)

lemma example_no_dot: "\<not> emailRegex_test (js ''ab@cd'')"
  by (simp add: regex_eval)

section \<open>Login\<close>

lemma login_try_valid:
  "emailRegex_test email \<Longrightarrow> 6 \<le> length password \<Longrightarrow>
   \<exists>st'. login_try H t1 t2 email password rememberMe st = Inr st'"
  by (simp add: login_try_def Let_def)

lemma login_try_invalid:
  "\<not> emailRegex_test email \<or> length password < 6 \<Longrightarrow>
   \<exists>e. login_try H t1 t2 email password rememberMe st = Inl e"
  by (auto simp: login_try_def Let_def)

text \<open>
  C3. For every email and password that fail validation (the email does not have the
  shape, or the password has fewer than 6 characters), \<^verbatim>\<open>login\<close> returns \<^verbatim>\<open>false\<close> and
  leaves the whole state as it was: \<^verbatim>\<open>user\<close>, \<^verbatim>\<open>isAuthenticated\<close> and both storage
  tiers. The validation error is raised inside the \<^verbatim>\<open>try\<close> block and caught: the caller
  gets a result, not the error.
\<close>

theorem login_invalid_no_effect:
  assumes "\<not> email_shape email \<or> length password < 6"
  shows "login H t1 t2 email password rememberMe st = (False, st) \<and>
         (\<exists>e. login_try H t1 t2 email password rememberMe st = Inl e)"
proof -
  from assms have "\<not> emailRegex_test email \<or> length password < 6"
    by (simp add: emailRegex_test_shape)
  then obtain e where "login_try H t1 t2 email password rememberMe st = Inl e"
    using login_try_invalid by blast
  then show ?thesis by (simp add: login_def)
qed

theorem login_invalid_no_effect_witness:
  "\<not> email_shape (js ''ab@cd'') \<and>
   login demo_host 0 0 (js ''ab@cd'') (js ''abcdef'') True (mount no_items no_items) =
     (False, mount no_items no_items)"
  using login_invalid_no_effect [of "js ''ab@cd''" "js ''abcdef''" demo_host 0 0 True
      "mount no_items no_items"]
  by (simp add: emailRegex_test_shape [symmetric] example_no_dot)

text \<open>
  C4. For every email and password, \<^verbatim>\<open>login\<close> returns \<^verbatim>\<open>true\<close> if and only if the email
  has the shape (one or more characters that are neither white space nor \<^verbatim>\<open>@\<close>, an \<^verbatim>\<open>@\<close>,
  one or more such characters, a dot, one or more such characters) and the password
  has at least 6 characters. In particular it returns \<^verbatim>\<open>false\<close> for every password
  shorter than 6 characters, whatever the email.
\<close>

theorem login_true_iff:
  "(fst (login H t1 t2 email password rememberMe st) \<longleftrightarrow>
      email_shape email \<and> 6 \<le> length password) \<and>
   (length password < 6 \<longrightarrow> \<not> fst (login H t1 t2 email password rememberMe st))"
proof (cases "emailRegex_test email \<and> 6 \<le> length password")
  case True
  then obtain st' where "login_try H t1 t2 email password rememberMe st = Inr st'"
    using login_try_valid by blast
  with True show ?thesis by (simp add: login_def emailRegex_test_shape)
next
  case False
  then have "\<not> emailRegex_test email \<or> length password < 6" by auto
  then obtain e where "login_try H t1 t2 email password rememberMe st = Inl e"
    using login_try_invalid by blast
  with False show ?thesis by (auto simp: login_def emailRegex_test_shape)
qed

theorem login_true_iff_witness:
  "fst (login demo_host 0 0 (js ''a@b.co'') (js ''abcdef'') False (mount no_items no_items)) \<and>
   email_shape (js ''a@b.co'') \<and> 6 \<le> length (js ''abcdef'') \<and>
   length (js ''abc'') < 6 \<and>
   \<not> fst (login demo_host 0 0 (js ''a@b.co'') (js ''abc'') False (mount no_items no_items))"
  using login_true_iff [of demo_host 0 0 "js ''a@b.co''" "js ''abcdef''" False
      "mount no_items no_items"]
    login_true_iff [of demo_host 0 0 "js ''a@b.co''" "js ''abc''" False
      "mount no_items no_items"]
  by (simp add: login_def login_try_def Let_def example_email)

section \<open>Logout\<close>

text \<open>
  C7. After a successful \<^verbatim>\<open>login\<close> followed by \<^verbatim>\<open>logout\<close>, neither storage tier has the
  key \<^verbatim>\<open>user\<close> or the key \<^verbatim>\<open>isAuthenticated\<close>, \<^verbatim>\<open>user\<close> is \<^verbatim>\<open>null\<close> and \<^verbatim>\<open>isAuthenticated\<close> is
  \<^verbatim>\<open>false\<close>. \<^verbatim>\<open>logout\<close> purges both tiers from any state, whichever tier held the Session.
\<close>

theorem logout_after_login_purges:
  "(fst (login H t1 t2 email password rememberMe st) \<longrightarrow>
      purged (localStorage (logout (snd (login H t1 t2 email password rememberMe st)))) \<and>
      purged (sessionStorage (logout (snd (login H t1 t2 email password rememberMe st)))) \<and>
      user (logout (snd (login H t1 t2 email password rememberMe st))) = JNull \<and>
      \<not> isAuthenticated (logout (snd (login H t1 t2 email password rememberMe st)))) \<and>
   purged (localStorage (logout st)) \<and> purged (sessionStorage (logout st)) \<and>
   user (logout st) = JNull \<and> \<not> isAuthenticated (logout st)"
  by (simp add: logout_def purged_def storage_defs)

theorem logout_after_login_purges_witness:
  "fst (login demo_host 0 0 (js ''a@b.co'') (js ''abcdef'') True (mount no_items no_items)) \<and>
   purged (localStorage (logout (snd (login demo_host 0 0 (js ''a@b.co'') (js ''abcdef'') True
     (mount no_items no_items))))) \<and>
   purged (sessionStorage (logout (snd (login demo_host 0 0 (js ''a@b.co'') (js ''abcdef'') True
     (mount no_items no_items)))))"
  using logout_after_login_purges [of demo_host 0 0 "js ''a@b.co''" "js ''abcdef''" True
      "mount no_items no_items"]
  by (simp add: login_def login_try_def Let_def example_email)

text \<open>
  C9. \<^verbatim>\<open>logout\<close> is idempotent: from every state, two calls in a row end in the same
  state (\<^verbatim>\<open>user\<close>, \<^verbatim>\<open>isAuthenticated\<close>, \<^verbatim>\<open>isLoading\<close> and both storage tiers) as one call.
  Called when already logged out, with both tiers purged, it raises no error and
  changes nothing.
\<close>

theorem logout_idempotent:
  "logout (logout st) = logout st \<and>
   (user st = JNull \<and> \<not> isAuthenticated st \<and>
    purged (localStorage st) \<and> purged (sessionStorage st) \<longrightarrow>
      logout st = st)"
  by (auto simp: logout_def purged_def storage_defs fun_upd_idem)

theorem logout_idempotent_witness:
  "user (mount no_items no_items) = JNull \<and>
   \<not> isAuthenticated (mount no_items no_items) \<and>
   purged (localStorage (mount no_items no_items)) \<and>
   purged (sessionStorage (mount no_items no_items)) \<and>
   logout (mount no_items no_items) = mount no_items no_items \<and>
   logout (logout (mount no_items no_items)) = logout (mount no_items no_items)"
proof -
  have "user (mount no_items no_items) = JNull \<and>
        \<not> isAuthenticated (mount no_items no_items) \<and>
        purged (localStorage (mount no_items no_items)) \<and>
        purged (sessionStorage (mount no_items no_items))"
    by (simp add: mount_def no_items_def purged_def storage_defs)
  with logout_idempotent [of "mount no_items no_items"] show ?thesis
    by simp
qed

section \<open>The example host at work\<close>

lemma Number_toString_0: "Number_toString 0 = js ''0''"
  by (simp add: Number_toString_def decimal.simps digit_def js_def)

lemma demo_login_state:
  "login demo_host 0 0 (js ''a@b.co'') (js ''abcdef'') r st =
     (True,
      (let userData =
             JObj [(js ''email'', JStr (js ''a@b.co'')),
                   (js ''rememberMe'', JBool r),
                   (js ''loginTime'', JStr (js ''1970-01-01T00:00:00.000Z'')),
                   (js ''id'', JStr (js ''0''))]
       in if r then
            st\<lparr>user := userData, isAuthenticated := True,
               localStorage :=
                 (localStorage st)(js ''user'' \<mapsto> demo_stringify userData,
                                   js ''isAuthenticated'' \<mapsto> js ''true'')\<rparr>
          else
            st\<lparr>user := userData, isAuthenticated := True,
               sessionStorage :=
                 (sessionStorage st)(js ''user'' \<mapsto> demo_stringify userData,
                                     js ''isAuthenticated'' \<mapsto> js ''true'')\<rparr>))"
  by (simp add: login_def login_try_def Let_def example_email demo_host_def storage_defs
      Number_toString_0)

lemma demo_login_no_dot:
  "login demo_host 0 0 (js ''ab@cd'') (js ''abcdef'') r st = (False, st)"
  by (simp add: login_def login_try_def example_no_dot)

lemma demo_stringify_session:
  "demo_stringify
     (JObj [(js ''email'', JStr (js ''a@b.co'')),
            (js ''rememberMe'', JBool False),
            (js ''loginTime'', JStr (js ''1970-01-01T00:00:00.000Z'')),
            (js ''id'', JStr (js ''0''))]) =
   js ''{\"email\":\"a@b.co\",\"rememberMe\":false,\"loginTime\":\"1970-01-01T00:00:00.000Z\",\"id\":\"0\"}''"
  by (simp add: demo_stringify_def js_def)

lemma session0_eq:
  "session0 =
     \<lparr>user = JObj [(js ''email'', JStr (js ''a@b.co'')),
                   (js ''rememberMe'', JBool False),
                   (js ''loginTime'', JStr (js ''1970-01-01T00:00:00.000Z'')),
                   (js ''id'', JStr (js ''0''))],
      isAuthenticated = True, isLoading = True, localStorage = no_items,
      sessionStorage =
        no_items(js ''user'' \<mapsto>
           js ''{\"email\":\"a@b.co\",\"rememberMe\":false,\"loginTime\":\"1970-01-01T00:00:00.000Z\",\"id\":\"0\"}'',
           js ''isAuthenticated'' \<mapsto> js ''true'')\<rparr>"
  by (simp add: session0_def demo_login_state mount_def demo_stringify_session)

section \<open>Session expiry\<close>

text \<open>
  C5. When a Session exists whose \<^verbatim>\<open>loginTime\<close> is more than 24 hours before the
  current time, \<^verbatim>\<open>validateSession\<close> returns \<^verbatim>\<open>false\<close> and leaves the state that \<^verbatim>\<open>logout\<close>
  leaves (\<^verbatim>\<open>user\<close> is \<^verbatim>\<open>null\<close>, \<^verbatim>\<open>isAuthenticated\<close> is \<^verbatim>\<open>false\<close>). When the elapsed time is
  within 24 hours it returns \<^verbatim>\<open>true\<close> and changes nothing. When there is no Session
  (\<^verbatim>\<open>user\<close> is \<^verbatim>\<open>null\<close>) it returns \<^verbatim>\<open>true\<close> and changes nothing. Here \<open>v\<close> is the
  \<^verbatim>\<open>loginTime\<close> of the Session, a value that is not empty, and \<open>t\<close> the time it denotes.
\<close>

theorem validateSession_expiry:
  "(user st = JObj ps \<and> map_of ps (js ''loginTime'') = Some v \<and> truthy v \<and>
    Date_getTime H v = Some t \<longrightarrow>
      (24 * 60 * 60 * 1000 < now - t \<longrightarrow>
         validateSession H now st = (False, logout st) \<and>
         user (logout st) = JNull \<and> \<not> isAuthenticated (logout st)) \<and>
      (now - t \<le> 24 * 60 * 60 * 1000 \<longrightarrow> validateSession H now st = (True, st))) \<and>
   (user st = JNull \<longrightarrow> validateSession H now st = (True, st))"
  by (simp add: validateSession_def maxSessionTime_def logout_def)

theorem validateSession_expiry_witness:
  "user session0 =
     JObj [(js ''email'', JStr (js ''a@b.co'')),
           (js ''rememberMe'', JBool False),
           (js ''loginTime'', JStr (js ''1970-01-01T00:00:00.000Z'')),
           (js ''id'', JStr (js ''0''))] \<and>
   truthy (JStr (js ''1970-01-01T00:00:00.000Z'')) \<and>
   Date_getTime demo_host (JStr (js ''1970-01-01T00:00:00.000Z'')) = Some 0 \<and>
   validateSession demo_host (25 * 60 * 60 * 1000) session0 = (False, logout session0) \<and>
   validateSession demo_host (60 * 60 * 1000) session0 = (True, session0) \<and>
   validateSession demo_host 0 (mount no_items no_items) = (True, mount no_items no_items)"
proof -
  let ?ps = "[(js ''email'', JStr (js ''a@b.co'')),
              (js ''rememberMe'', JBool False),
              (js ''loginTime'', JStr (js ''1970-01-01T00:00:00.000Z'')),
              (js ''id'', JStr (js ''0''))]"
  let ?v = "JStr (js ''1970-01-01T00:00:00.000Z'')"
  have u: "user session0 = JObj ?ps"
    by (simp add: session0_eq)
  have m: "map_of ?ps (js ''loginTime'') = Some ?v" by simp
  have tr: "truthy ?v" by simp
  have d: "Date_getTime demo_host ?v = Some 0" by (simp add: demo_host_def)
  have n: "user (mount no_items no_items) = JNull" by (simp add: mount_def)
  show ?thesis
    using u m tr d n
      validateSession_expiry [of session0 ?ps ?v demo_host 0 "25 * 60 * 60 * 1000"]
      validateSession_expiry [of session0 ?ps ?v demo_host 0 "60 * 60 * 1000"]
      validateSession_expiry [of "mount no_items no_items" ?ps ?v demo_host 0 0]
    by simp
qed

section \<open>Bootstrap\<close>

text \<open>
  C6, amended. When bootstrap reads a durable \<^verbatim>\<open>user\<close> text that is not empty and fails
  to deserialize, while the authenticated flag is the literal \<^verbatim>\<open>true\<close>, it removes both
  durable keys, leaves \<^verbatim>\<open>user\<close> and \<^verbatim>\<open>isAuthenticated\<close> as they were (unauthenticated at
  startup), catches the parse error and sets \<^verbatim>\<open>isLoading\<close> to \<^verbatim>\<open>false\<close>.
\<close>

theorem initializeAuth_malformed:
  assumes "getItem (localStorage st) (js ''user'') = Some stored"
    and "stored \<noteq> []"
    and "JSON_parse H stored = None"
    and "getItem (localStorage st) (js ''isAuthenticated'') = Some (js ''true'')"
  shows "initializeAuth_try H st = Inl SyntaxError \<and>
         purged (localStorage (initializeAuth H st)) \<and>
         user (initializeAuth H st) = user st \<and>
         isAuthenticated (initializeAuth H st) = isAuthenticated st \<and>
         \<not> isLoading (initializeAuth H st)"
proof -
  from assms have "initializeAuth_try H st = Inl SyntaxError"
    by (simp add: initializeAuth_try_def)
  then show ?thesis
    by (simp add: initializeAuth_def purged_def storage_defs)
qed

theorem initializeAuth_malformed_witness:
  "getItem corrupt_store (js ''user'') = Some (js ''{bad'') \<and>
   JSON_parse demo_host (js ''{bad'') = None \<and>
   getItem corrupt_store (js ''isAuthenticated'') = Some (js ''true'') \<and>
   purged (localStorage (initializeAuth demo_host (mount corrupt_store no_items))) \<and>
   user (initializeAuth demo_host (mount corrupt_store no_items)) = JNull \<and>
   \<not> isAuthenticated (initializeAuth demo_host (mount corrupt_store no_items)) \<and>
   \<not> isLoading (initializeAuth demo_host (mount corrupt_store no_items))"
proof -
  have a: "getItem (localStorage (mount corrupt_store no_items)) (js ''user'') =
           Some (js ''{bad'')"
    by (simp add: mount_def corrupt_store_def storage_defs)
  have b: "js ''{bad'' \<noteq> []" by simp
  have c: "JSON_parse demo_host (js ''{bad'') = None" by (simp add: demo_host_def)
  have d: "getItem (localStorage (mount corrupt_store no_items)) (js ''isAuthenticated'') =
           Some (js ''true'')"
    by (simp add: mount_def corrupt_store_def storage_defs)
  show ?thesis
    using initializeAuth_malformed [OF a b c d] a c d by (simp add: mount_def)
qed

text \<open>
  C6 as stated fails for the empty text, which is not JSON either: it is falsy, so
  \<^verbatim>\<open>JSON.parse\<close> is never called and both durable keys stay.
\<close>

theorem initializeAuth_empty_text_counterexample:
  "getItem (localStorage (mount empty_text_store no_items)) (js ''user'') = Some [] \<and>
   JSON_parse demo_host [] = None \<and>
   getItem (localStorage (mount empty_text_store no_items)) (js ''isAuthenticated'') =
     Some (js ''true'') \<and>
   getItem (localStorage (initializeAuth demo_host (mount empty_text_store no_items)))
     (js ''user'') = Some [] \<and>
   getItem (localStorage (initializeAuth demo_host (mount empty_text_store no_items)))
     (js ''isAuthenticated'') = Some (js ''true'') \<and>
   \<not> purged (localStorage (initializeAuth demo_host (mount empty_text_store no_items)))"
  by (simp add: initializeAuth_def initializeAuth_try_def mount_def empty_text_store_def
      storage_defs demo_host_def purged_def)

section \<open>Updating the user\<close>

lemma fold_update_other:
  "k \<notin> fst ` set ps \<Longrightarrow>
   map_of (fold (\<lambda>(k, x). AList.update k x) ps acc) k = map_of acc k"
proof (induction ps arbitrary: acc)
  case Nil
  then show ?case by simp
next
  case (Cons p ps)
  obtain k' x where p: "p = (k', x)" by (cases p)
  with Cons.prems have "k' \<noteq> k" and "k \<notin> fst ` set ps" by auto
  then show ?case
    by (simp add: p Cons.IH update_conv')
qed

lemma fold_update_named:
  "distinct (map fst ps) \<Longrightarrow> (k, x) \<in> set ps \<Longrightarrow>
   map_of (fold (\<lambda>(k, x). AList.update k x) ps acc) k = Some x"
proof (induction ps arbitrary: acc)
  case Nil
  then show ?case by simp
next
  case (Cons p ps)
  obtain k' x' where p: "p = (k', x')" by (cases p)
  show ?case
  proof (cases "(k, x) = p")
    case True
    with Cons.prems p have "k \<notin> fst ` set ps" by auto
    then show ?thesis
      using True p by (simp add: fold_update_other update_conv')
  next
    case False
    with Cons.prems have "distinct (map fst ps)" and "(k, x) \<in> set ps" by auto
    then show ?thesis
      by (simp add: p Cons.IH)
  qed
qed

text \<open>Copying a well-formed object onto a fresh one gives the same properties.\<close>

lemma fold_update_fresh:
  "distinct (map fst ps) \<Longrightarrow>
   map_of (fold (\<lambda>(k, x). AList.update k x) ps []) = map_of ps"
proof (rule ext)
  fix k assume d: "distinct (map fst ps)"
  show "map_of (fold (\<lambda>(k, x). AList.update k x) ps []) k = map_of ps k"
  proof (cases "map_of ps k")
    case None
    then have "k \<notin> fst ` set ps" by (simp add: map_of_eq_None_iff)
    then show ?thesis using None by (simp add: fold_update_other)
  next
    case (Some x)
    then have "(k, x) \<in> set ps" by (rule map_of_SomeD)
    then show ?thesis using Some d by (simp add: fold_update_named)
  qed
qed

lemma spread2_other:
  assumes "distinct (map fst u)" and "k \<notin> fst ` set (own_props b)"
  shows "get_prop (spread2 (JObj u) b) k = get_prop (JObj u) k"
  using assms by (simp add: spread2_def define_props_def fold_update_other fold_update_fresh)

lemma spread2_named:
  assumes "distinct (map fst (own_props b))" and "(k, x) \<in> set (own_props b)"
  shows "get_prop (spread2 a b) k = x"
  using assms by (simp add: spread2_def define_props_def fold_update_named)

lemma updateUser_user: "user (updateUser H partial st) = spread2 (user st) partial"
  by (simp add: updateUser_def Let_def)

lemma updateUser_localStorage:
  "localStorage (updateUser H partial st) =
     (if truthy_item (getItem (localStorage st) (js ''user'')) then
        setItem (localStorage st) (js ''user'') (JSON_stringify H (spread2 (user st) partial))
      else localStorage st)"
  by (simp add: updateUser_def Let_def)

lemma updateUser_sessionStorage:
  "sessionStorage (updateUser H partial st) =
     (if truthy_item (getItem (sessionStorage st) (js ''user'')) then
        setItem (sessionStorage st) (js ''user'') (JSON_stringify H (spread2 (user st) partial))
      else sessionStorage st)"
  by (simp add: updateUser_def Let_def)

text \<open>
  C8. \<^verbatim>\<open>updateUser(partial)\<close> on a Session (an object, each property name once) keeps
  every field that \<open>partial\<close> does not name and gives the named fields the values of
  \<open>partial\<close>. It checks both storage tiers: a tier whose \<^verbatim>\<open>user\<close> item is present and not
  empty gets the serialized merged Session under \<^verbatim>\<open>user\<close>, a tier that holds none is
  left as it was.
\<close>

theorem updateUser_merges_and_persists:
  assumes "user st = JObj u" and "distinct (map fst u)"
  shows "(\<forall>k. k \<notin> fst ` set (own_props partial) \<longrightarrow>
            get_prop (user (updateUser H partial st)) k = get_prop (user st) k) \<and>
         (\<forall>k x. distinct (map fst (own_props partial)) \<and> (k, x) \<in> set (own_props partial) \<longrightarrow>
            get_prop (user (updateUser H partial st)) k = x) \<and>
         localStorage (updateUser H partial st) =
           (if truthy_item (getItem (localStorage st) (js ''user'')) then
              setItem (localStorage st) (js ''user'')
                (JSON_stringify H (user (updateUser H partial st)))
            else localStorage st) \<and>
         sessionStorage (updateUser H partial st) =
           (if truthy_item (getItem (sessionStorage st) (js ''user'')) then
              setItem (sessionStorage st) (js ''user'')
                (JSON_stringify H (user (updateUser H partial st)))
            else sessionStorage st)"
proof (intro conjI allI impI)
  fix k assume "k \<notin> fst ` set (own_props partial)"
  with assms show "get_prop (user (updateUser H partial st)) k = get_prop (user st) k"
    by (simp add: updateUser_user spread2_other)
next
  fix k x
  assume "distinct (map fst (own_props partial)) \<and> (k, x) \<in> set (own_props partial)"
  then show "get_prop (user (updateUser H partial st)) k = x"
    by (simp add: updateUser_user spread2_named)
next
  show "localStorage (updateUser H partial st) =
           (if truthy_item (getItem (localStorage st) (js ''user'')) then
              setItem (localStorage st) (js ''user'')
                (JSON_stringify H (user (updateUser H partial st)))
            else localStorage st)"
    by (simp add: updateUser_user updateUser_localStorage)
next
  show "sessionStorage (updateUser H partial st) =
           (if truthy_item (getItem (sessionStorage st) (js ''user'')) then
              setItem (sessionStorage st) (js ''user'')
                (JSON_stringify H (user (updateUser H partial st)))
            else sessionStorage st)"
    by (simp add: updateUser_user updateUser_sessionStorage)
qed

theorem updateUser_merges_and_persists_witness:
  "isAuthenticated session0 \<and>
   get_prop (user session0) (js ''email'') = JStr (js ''a@b.co'') \<and>
   get_prop (user (updateUser demo_host nickname_x session0)) (js ''email'') =
     JStr (js ''a@b.co'') \<and>
   get_prop (user (updateUser demo_host nickname_x session0)) (js ''nickname'') =
     JStr (js ''x'') \<and>
   truthy_item (getItem (sessionStorage session0) (js ''user'')) \<and>
   getItem (sessionStorage (updateUser demo_host nickname_x session0)) (js ''user'') =
     Some (JSON_stringify demo_host (user (updateUser demo_host nickname_x session0))) \<and>
   \<not> truthy_item (getItem (localStorage session0) (js ''user'')) \<and>
   localStorage (updateUser demo_host nickname_x session0) = localStorage session0"
proof -
  let ?u = "[(js ''email'', JStr (js ''a@b.co'')),
             (js ''rememberMe'', JBool False),
             (js ''loginTime'', JStr (js ''1970-01-01T00:00:00.000Z'')),
             (js ''id'', JStr (js ''0''))]"
  have u: "user session0 = JObj ?u" by (simp add: session0_eq)
  have d: "distinct (map fst ?u)" by simp
  have s: "truthy_item (getItem (sessionStorage session0) (js ''user''))"
    by (simp add: session0_eq storage_defs)
  have l: "\<not> truthy_item (getItem (localStorage session0) (js ''user''))"
    by (simp add: session0_eq storage_defs no_items_def)
  have a: "isAuthenticated session0" by (simp add: session0_eq)
  have e: "get_prop (user session0) (js ''email'') = JStr (js ''a@b.co'')"
    by (simp add: session0_eq)
  have n: "js ''email'' \<notin> fst ` set (own_props nickname_x)"
    by (simp add: nickname_x_def)
  have m: "distinct (map fst (own_props nickname_x)) \<and>
           (js ''nickname'', JStr (js ''x'')) \<in> set (own_props nickname_x)"
    by (simp add: nickname_x_def)
  note merged = updateUser_merges_and_persists [OF u d, of nickname_x demo_host]
  from merged n e
  have t1: "get_prop (user (updateUser demo_host nickname_x session0)) (js ''email'') =
            JStr (js ''a@b.co'')"
    by simp
  from merged m
  have t2: "get_prop (user (updateUser demo_host nickname_x session0)) (js ''nickname'') =
            JStr (js ''x'')"
    by blast
  from merged s l a e t1 t2 show ?thesis
    by (simp add: storage_defs)
qed

text \<open>
  C10, amended. If both storage tiers hold a \<^verbatim>\<open>user\<close> item that is not empty,
  \<^verbatim>\<open>updateUser(partial)\<close> writes the merged Session to both tiers, not to just one.
\<close>

theorem updateUser_both_tiers:
  assumes "truthy_item (getItem (localStorage st) (js ''user''))"
    and "truthy_item (getItem (sessionStorage st) (js ''user''))"
  shows "getItem (localStorage (updateUser H partial st)) (js ''user'') =
           Some (JSON_stringify H (spread2 (user st) partial)) \<and>
         getItem (sessionStorage (updateUser H partial st)) (js ''user'') =
           Some (JSON_stringify H (spread2 (user st) partial)) \<and>
         user (updateUser H partial st) = spread2 (user st) partial"
  using assms
  by (simp add: updateUser_user updateUser_localStorage updateUser_sessionStorage storage_defs)

theorem updateUser_both_tiers_witness:
  "truthy_item (getItem (localStorage both_seeded) (js ''user'')) \<and>
   truthy_item (getItem (sessionStorage both_seeded) (js ''user'')) \<and>
   getItem (localStorage (updateUser demo_host nickname_x both_seeded)) (js ''user'') =
     Some (JSON_stringify demo_host (user (updateUser demo_host nickname_x both_seeded))) \<and>
   getItem (sessionStorage (updateUser demo_host nickname_x both_seeded)) (js ''user'') =
     Some (JSON_stringify demo_host (user (updateUser demo_host nickname_x both_seeded)))"
proof -
  have l: "truthy_item (getItem (localStorage both_seeded) (js ''user''))"
    by (simp add: both_seeded_def storage_defs)
  have s: "truthy_item (getItem (sessionStorage both_seeded) (js ''user''))"
    by (simp add: both_seeded_def session0_eq storage_defs)
  from updateUser_both_tiers [OF l s, of demo_host nickname_x] l s show ?thesis
    by simp
qed

text \<open>
  C10 as stated fails when a tier holds the key \<^verbatim>\<open>user\<close> with the empty text: the item
  is falsy, so that tier is not written and keeps the empty text.
\<close>

theorem updateUser_empty_item_counterexample:
  "getItem (localStorage empty_seeded) (js ''user'') = Some [] \<and>
   getItem (sessionStorage empty_seeded) (js ''user'') \<noteq> None \<and>
   getItem (localStorage (updateUser demo_host nickname_x empty_seeded)) (js ''user'') =
     Some [] \<and>
   JSON_stringify demo_host (user (updateUser demo_host nickname_x empty_seeded)) \<noteq> [] \<and>
   getItem (sessionStorage (updateUser demo_host nickname_x empty_seeded)) (js ''user'') =
     Some (JSON_stringify demo_host (user (updateUser demo_host nickname_x empty_seeded)))"
  by (simp add: empty_seeded_def session0_eq updateUser_user updateUser_localStorage
      updateUser_sessionStorage storage_defs demo_host_def demo_stringify_def spread2_def)

section \<open>Where login stores the Session\<close>

lemma login_success:
  assumes "login H t1 t2 email password rememberMe st = (True, st')"
  shows "login_try H t1 t2 email password rememberMe st = Inr st'"
  using assms by (simp add: login_def split: sum.splits)

lemma truthy_item_holds: "truthy_item (getItem m (js ''user'')) \<Longrightarrow> holds_session m"
  by (cases "getItem m (js ''user'')") (simp_all add: holds_session_def)

lemma updateUser_holds:
  "holds_session (localStorage (updateUser H d st)) = holds_session (localStorage st)"
  "holds_session (sessionStorage (updateUser H d st)) = holds_session (sessionStorage st)"
  using truthy_item_holds [of "localStorage st"] truthy_item_holds [of "sessionStorage st"]
  by (auto simp: updateUser_localStorage updateUser_sessionStorage holds_session_def
      storage_defs)

lemma updateUser_isAuthenticated:
  "isAuthenticated (updateUser H d st) = isAuthenticated st"
  by (simp add: updateUser_def Let_def)

lemma logout_tier_inv: "tier_inv (logout st)"
  by (simp add: tier_inv_def logout_def holds_session_def storage_defs)

lemma login_tier_inv:
  "tier_inv st \<Longrightarrow> \<not> isAuthenticated st \<Longrightarrow>
   tier_inv (snd (login H t1 t2 email password r st))"
  by (simp add: login_def login_try_def Let_def tier_inv_def holds_session_def storage_defs)

lemma updateUser_tier_inv: "tier_inv st \<Longrightarrow> tier_inv (updateUser H d st)"
  by (simp add: tier_inv_def updateUser_holds updateUser_isAuthenticated)

lemma validateSession_tier_inv: "tier_inv st \<Longrightarrow> tier_inv (snd (validateSession H now st))"
  by (simp add: validateSession_def Let_def logout_tier_inv split: option.splits)

lemma initializeAuth_tier_inv:
  "tier_inv st \<Longrightarrow> \<not> isAuthenticated st \<Longrightarrow> tier_inv (initializeAuth H st)"
  by (simp add: initializeAuth_def initializeAuth_try_def tier_inv_def holds_session_def
      storage_defs)

lemma step_tier_inv:
  "tier_inv st \<Longrightarrow> (anonymous_only x \<longrightarrow> \<not> isAuthenticated st) \<Longrightarrow> tier_inv (step H st x)"
  by (cases x) (simp_all add: login_tier_inv logout_tier_inv updateUser_tier_inv
      validateSession_tier_inv initializeAuth_tier_inv)

lemma run_tier_inv: "tier_inv st \<Longrightarrow> login_once H st ops \<Longrightarrow> tier_inv (run H st ops)"
  unfolding run_def
proof (induction ops arbitrary: st)
  case Nil
  then show ?case by simp
next
  case (Cons x xs)
  then have "tier_inv (step H st x)" and "login_once H (step H st x) xs"
    by (simp_all add: step_tier_inv)
  then have "tier_inv (foldl (step H) (step H st x) xs)" by (rule Cons.IH)
  then show ?case by simp
qed

lemma login_once_take: "login_once H st ops \<Longrightarrow> login_once H st (take n ops)"
proof (induction ops arbitrary: st n)
  case Nil
  then show ?case by simp
next
  case (Cons x xs)
  then show ?case by (cases n) simp_all
qed

lemma login_post:
  assumes "login H t1 t2 email password rememberMe st = (True, st')"
  shows "isAuthenticated st' \<and>
         user st' =
           JObj [(js ''email'', JStr email), (js ''rememberMe'', JBool rememberMe),
                 (js ''loginTime'', JStr (Date_toISOString H t1)),
                 (js ''id'', JStr (Number_toString t2))] \<and>
         (if rememberMe then
            getItem (localStorage st') (js ''user'') = Some (JSON_stringify H (user st')) \<and>
            getItem (localStorage st') (js ''isAuthenticated'') = Some (js ''true'') \<and>
            sessionStorage st' = sessionStorage st
          else
            getItem (sessionStorage st') (js ''user'') = Some (JSON_stringify H (user st')) \<and>
            getItem (sessionStorage st') (js ''isAuthenticated'') = Some (js ''true'') \<and>
            localStorage st' = localStorage st) \<and>
         (\<not> holds_session (if rememberMe then sessionStorage st else localStorage st) \<longrightarrow>
            (holds_session (localStorage st') \<and> \<not> holds_session (sessionStorage st') \<or>
             \<not> holds_session (localStorage st') \<and> holds_session (sessionStorage st')))"
proof -
  from assms have "login_try H t1 t2 email password rememberMe st = Inr st'"
    by (rule login_success)
  then show ?thesis
    by (auto simp: login_try_def Let_def holds_session_def storage_defs split: if_splits)
qed

text \<open>
  C1, amended. After every successful \<^verbatim>\<open>login(email, password, rememberMe)\<close> the state is
  authenticated and the serialized Session is stored under the durable
  (\<^verbatim>\<open>localStorage\<close>) keys if \<^verbatim>\<open>rememberMe\<close> is true and otherwise under the ephemeral
  (\<^verbatim>\<open>sessionStorage\<close>) keys. \<^verbatim>\<open>login\<close> leaves the other tier as it was: if that tier held
  no Session before the login, exactly one tier holds a Session after it. Hence, in a
  sequence of operations that starts with no Session in either tier and calls \<^verbatim>\<open>login\<close>
  only while unauthenticated, after each operation the Session is in exactly one tier
  if the state is authenticated and in none otherwise.
\<close>

theorem login_stores_in_chosen_tier:
  "(login H t1 t2 email password rememberMe st = (True, st') \<longrightarrow>
      isAuthenticated st' \<and>
      (if rememberMe then
         getItem (localStorage st') (js ''user'') = Some (JSON_stringify H (user st')) \<and>
         getItem (localStorage st') (js ''isAuthenticated'') = Some (js ''true'') \<and>
         sessionStorage st' = sessionStorage st
       else
         getItem (sessionStorage st') (js ''user'') = Some (JSON_stringify H (user st')) \<and>
         getItem (sessionStorage st') (js ''isAuthenticated'') = Some (js ''true'') \<and>
         localStorage st' = localStorage st) \<and>
      (\<not> holds_session (if rememberMe then sessionStorage st else localStorage st) \<longrightarrow>
         (holds_session (localStorage st') \<and> \<not> holds_session (sessionStorage st') \<or>
          \<not> holds_session (localStorage st') \<and> holds_session (sessionStorage st')))) \<and>
   (tier_inv s \<and> login_once H s ops \<longrightarrow>
      (\<forall>n \<le> length ops. tier_inv (run H s (take n ops))))"
proof (rule conjI)
  show "login H t1 t2 email password rememberMe st = (True, st') \<longrightarrow>
      isAuthenticated st' \<and>
      (if rememberMe then
         getItem (localStorage st') (js ''user'') = Some (JSON_stringify H (user st')) \<and>
         getItem (localStorage st') (js ''isAuthenticated'') = Some (js ''true'') \<and>
         sessionStorage st' = sessionStorage st
       else
         getItem (sessionStorage st') (js ''user'') = Some (JSON_stringify H (user st')) \<and>
         getItem (sessionStorage st') (js ''isAuthenticated'') = Some (js ''true'') \<and>
         localStorage st' = localStorage st) \<and>
      (\<not> holds_session (if rememberMe then sessionStorage st else localStorage st) \<longrightarrow>
         (holds_session (localStorage st') \<and> \<not> holds_session (sessionStorage st') \<or>
          \<not> holds_session (localStorage st') \<and> holds_session (sessionStorage st')))"
    using login_post [of H t1 t2 email password rememberMe st st'] by simp
next
  show "tier_inv s \<and> login_once H s ops \<longrightarrow>
      (\<forall>n \<le> length ops. tier_inv (run H s (take n ops)))"
    by (simp add: run_tier_inv login_once_take)
qed

theorem login_stores_in_chosen_tier_witness:
  "login demo_host 0 0 (js ''a@b.co'') (js ''abcdef'') True (mount no_items no_items) =
     (True, remembered0) \<and>
   \<not> holds_session (sessionStorage (mount no_items no_items)) \<and>
   isAuthenticated remembered0 \<and>
   getItem (localStorage remembered0) (js ''user'') =
     Some (JSON_stringify demo_host (user remembered0)) \<and>
   getItem (localStorage remembered0) (js ''isAuthenticated'') = Some (js ''true'') \<and>
   holds_session (localStorage remembered0) \<and> \<not> holds_session (sessionStorage remembered0) \<and>
   tier_inv (mount no_items no_items) \<and>
   login_once demo_host (mount no_items no_items) tour \<and>
   isAuthenticated (run demo_host (mount no_items no_items) (take 4 tour)) \<and>
   tier_inv (run demo_host (mount no_items no_items) (take 4 tour))"
proof -
  have a: "login demo_host 0 0 (js ''a@b.co'') (js ''abcdef'') True (mount no_items no_items) =
           (True, remembered0)"
    by (simp add: remembered0_def demo_login_state)
  have b: "\<not> holds_session (sessionStorage (mount no_items no_items))"
    by (simp add: holds_session_def mount_def no_items_def storage_defs)
  note post =
    login_stores_in_chosen_tier [of demo_host 0 0 "js ''a@b.co''" "js ''abcdef''" True
      "mount no_items no_items" remembered0 "mount no_items no_items" tour]
  have c: "sessionStorage remembered0 = no_items"
    using post a by (simp add: mount_def)
  have i: "tier_inv (mount no_items no_items)"
    by (simp add: tier_inv_def holds_session_def mount_def no_items_def storage_defs)
  have o: "login_once demo_host (mount no_items no_items) tour"
    by (simp add: tour_def demo_login_no_dot mount_def initializeAuth_def
        initializeAuth_try_def no_items_def storage_defs)
  have l: "length tour = 7" by (simp add: tour_def)
  have t: "tier_inv (run demo_host (mount no_items no_items) (take 4 tour))"
    using post i o l by simp
  have u: "isAuthenticated (run demo_host (mount no_items no_items) (take 4 tour))"
    by (simp add: tour_def run_def demo_login_no_dot demo_login_state updateUser_def Let_def)
  from post a b c i o t u show ?thesis
    by (simp add: holds_session_def no_items_def storage_defs)
qed

text \<open>
  C1 as stated fails: \<^verbatim>\<open>login\<close> does not clear the other tier. After a login with
  \<^verbatim>\<open>rememberMe\<close> and a second login without it, the state is authenticated and both
  tiers hold a Session.
\<close>

theorem login_twice_counterexample:
  "fst (login demo_host 0 0 (js ''a@b.co'') (js ''abcdef'') True (mount no_items no_items)) \<and>
   fst (login demo_host 0 0 (js ''a@b.co'') (js ''abcdef'') False remembered0) \<and>
   isAuthenticated
     (run demo_host (mount no_items no_items)
        [Login 0 0 (js ''a@b.co'') (js ''abcdef'') True,
         Login 0 0 (js ''a@b.co'') (js ''abcdef'') False]) \<and>
   holds_session
     (localStorage
        (run demo_host (mount no_items no_items)
           [Login 0 0 (js ''a@b.co'') (js ''abcdef'') True,
            Login 0 0 (js ''a@b.co'') (js ''abcdef'') False])) \<and>
   holds_session
     (sessionStorage
        (run demo_host (mount no_items no_items)
           [Login 0 0 (js ''a@b.co'') (js ''abcdef'') True,
            Login 0 0 (js ''a@b.co'') (js ''abcdef'') False]))"
  by (simp add: run_def remembered0_def demo_login_state Let_def holds_session_def storage_defs)

section \<open>The state invariant\<close>

lemma login_inv: "session_inv st \<Longrightarrow> session_inv (snd (login H t1 t2 email password r st))"
  by (simp add: login_def login_try_def Let_def session_inv_def)

lemma logout_inv: "session_inv (logout st)"
  by (simp add: logout_def session_inv_def)

lemma updateUser_inv: "isAuthenticated st \<Longrightarrow> session_inv (updateUser H d st)"
  by (simp add: updateUser_def Let_def spread2_def session_inv_def)

lemma validateSession_inv: "session_inv st \<Longrightarrow> session_inv (snd (validateSession H now st))"
  by (simp add: validateSession_def Let_def logout_inv split: option.splits)

lemma initializeAuth_inv:
  assumes "session_inv st" and "permitted H st Bootstrap"
  shows "session_inv (initializeAuth H st)"
proof (cases "getItem (localStorage st) (js ''user'')")
  case None
  with assms(1) show ?thesis
    by (simp add: initializeAuth_def initializeAuth_try_def session_inv_def)
next
  case (Some stored)
  show ?thesis
  proof (cases "stored \<noteq> [] \<and>
      getItem (localStorage st) (js ''isAuthenticated'') = Some (js ''true'')")
    case True
    with Some assms(2) have "JSON_parse H stored \<noteq> Some JNull" by simp
    with Some True assms(1) show ?thesis
      by (cases "JSON_parse H stored")
        (auto simp: initializeAuth_def initializeAuth_try_def session_inv_def)
  next
    case False
    with Some assms(1) show ?thesis
      by (auto simp: initializeAuth_def initializeAuth_try_def session_inv_def)
  qed
qed

lemma step_inv: "session_inv st \<Longrightarrow> permitted H st x \<Longrightarrow> session_inv (step H st x)"
  by (cases x) (simp_all add: login_inv logout_inv updateUser_inv validateSession_inv
      initializeAuth_inv)

lemma run_inv: "session_inv st \<Longrightarrow> permitted_run H st ops \<Longrightarrow> session_inv (run H st ops)"
  unfolding run_def
proof (induction ops arbitrary: st)
  case Nil
  then show ?case by simp
next
  case (Cons x xs)
  then have "session_inv (step H st x)" and "permitted_run H (step H st x) xs"
    by (simp_all add: step_inv)
  then have "session_inv (foldl (step H) (step H st x) xs)" by (rule Cons.IH)
  then show ?case by simp
qed

lemma permitted_run_take: "permitted_run H st ops \<Longrightarrow> permitted_run H st (take n ops)"
proof (induction ops arbitrary: st n)
  case Nil
  then show ?case by simp
next
  case (Cons x xs)
  then show ?case by (cases n) simp_all
qed

lemma mount_inv: "session_inv (mount ls ss)"
  by (simp add: mount_def session_inv_def)

text \<open>
  C2, amended. Take any sequence of \<^verbatim>\<open>login\<close>, \<^verbatim>\<open>logout\<close>, \<^verbatim>\<open>validateSession\<close>, \<^verbatim>\<open>updateUser\<close>
  and bootstrap in which \<^verbatim>\<open>updateUser\<close> is called only while authenticated and no
  bootstrap reads a stored \<^verbatim>\<open>user\<close> text that parses to \<^verbatim>\<open>null\<close>. Started in a state where
  the invariant holds (such as the state of a fresh provider), the invariant holds
  after each operation: \<^verbatim>\<open>user\<close> is \<^verbatim>\<open>null\<close> if and only if \<^verbatim>\<open>isAuthenticated\<close> is \<^verbatim>\<open>false\<close>.
\<close>

theorem invariant_kept:
  assumes "session_inv st" and "permitted_run H st ops"
  shows "\<forall>n \<le> length ops. session_inv (run H st (take n ops))"
  using assms by (simp add: run_inv permitted_run_take)

theorem invariant_kept_witness:
  "session_inv (mount no_items no_items) \<and>
   permitted_run demo_host (mount no_items no_items) tour \<and>
   session_inv (run demo_host (mount no_items no_items) (take 4 tour)) \<and>
   isAuthenticated (run demo_host (mount no_items no_items) (take 4 tour)) \<and>
   session_inv (run demo_host (mount no_items no_items) tour) \<and>
   \<not> isAuthenticated (run demo_host (mount no_items no_items) tour)"
proof -
  have i: "session_inv (mount no_items no_items)" by (rule mount_inv)
  have p: "permitted_run demo_host (mount no_items no_items) tour"
    by (simp add: tour_def demo_login_no_dot demo_login_state Let_def mount_def no_items_def
        storage_defs)
  have a: "isAuthenticated (run demo_host (mount no_items no_items) (take 4 tour))"
    by (simp add: tour_def run_def demo_login_no_dot demo_login_state updateUser_def Let_def)
  have c: "\<not> isAuthenticated (run demo_host (mount no_items no_items) tour)"
    by (simp add: tour_def run_def logout_def)
  have l: "length tour = 7" by (simp add: tour_def)
  have "session_inv (run demo_host (mount no_items no_items) (take 4 tour))"
    using invariant_kept [OF i p, rule_format, of 4] l by simp
  moreover have "session_inv (run demo_host (mount no_items no_items) (take 7 tour))"
    using invariant_kept [OF i p, rule_format, of 7] l by simp
  ultimately show ?thesis
    using i p a c l by simp
qed

text \<open>
  C2 as stated fails: \<^verbatim>\<open>updateUser\<close> has no guard. Called on a fresh provider it sets
  \<^verbatim>\<open>user\<close> to the object it is given while \<^verbatim>\<open>isAuthenticated\<close> stays \<^verbatim>\<open>false\<close>.
\<close>

theorem updateUser_anonymous_counterexample:
  "user (mount no_items no_items) = JNull \<and>
   \<not> isAuthenticated (mount no_items no_items) \<and>
   user (run demo_host (mount no_items no_items) [UpdateUser nickname_x]) =
     JObj [(js ''nickname'', JStr (js ''x''))] \<and>
   \<not> isAuthenticated (run demo_host (mount no_items no_items) [UpdateUser nickname_x]) \<and>
   \<not> session_inv (run demo_host (mount no_items no_items) [UpdateUser nickname_x])"
  by (simp add: run_def updateUser_def Let_def mount_def no_items_def storage_defs spread2_def
      define_props_def nickname_x_def session_inv_def)

end
